theory Spec2Isabelle
  imports Complex_Main "HOL-Library.Log_Nat"
begin

section \<open>Purity, as the notebook computes it\<close>

text \<open>
  The one metric the notebook computes with code of its own is purity
  (\<^verbatim>\<open>Clustering/evaluation_metrics.ipynb\<close>, the first code cell):
  \<^verbatim>\<open>
  clusters = [
      {"A": 5, "B": 1},
      {"A": 1, "B": 4, "C": 1},
      {"A": 2, "C": 3}
  ]
  total_points = sum(sum(cluster.values()) for cluster in clusters)
  majority_sum = sum(max(cluster.values()) for cluster in clusters)
  print(f"Purity: {majority_sum / total_points:.2f}")
  \<close>
  A cluster is a dict from a true label to the number of the cluster's points that carry
  it. The dict is an association list in insertion order; only its values are read.
  Counts are Python ints, unbounded and possibly negative. \<^verbatim>\<open>max\<close> of an empty
  sequence raises \<^verbatim>\<open>ValueError\<close>; \<^verbatim>\<open>/\<close> raises
  \<^verbatim>\<open>ZeroDivisionError\<close> on a zero divisor and \<^verbatim>\<open>OverflowError\<close> when the
  quotient is too large for a float. All three are branches of the model.
\<close>

datatype py_error = ValueError | ZeroDivisionError | OverflowError

type_synonym cluster = "(string \<times> int) list"

definition dict_values :: "cluster \<Rightarrow> int list" where
  "dict_values c = map snd c"

text \<open>
  \<^verbatim>\<open>max(iterable)\<close>: the first item is the candidate, and a later item replaces it
  only when it is strictly greater.
\<close>

fun py_max :: "int list \<Rightarrow> py_error + int" where
  "py_max [] = Inl ValueError"
| "py_max (v # vs) = Inr (foldl (\<lambda>best item. if item > best then item else best) v vs)"

text \<open>\<^verbatim>\<open>sum(sum(cluster.values()) for cluster in clusters)\<close>\<close>

definition total_points :: "cluster list \<Rightarrow> int" where
  "total_points clusters = sum_list (map (\<lambda>cluster. sum_list (dict_values cluster)) clusters)"

text \<open>
  \<^verbatim>\<open>sum(max(cluster.values()) for cluster in clusters)\<close>: the generator is consumed
  in order, so the first empty dict raises before anything is added for the later clusters.
\<close>

fun majority_sum :: "cluster list \<Rightarrow> py_error + int" where
  "majority_sum [] = Inr 0"
| "majority_sum (cluster # rest) =
     (case py_max (dict_values cluster) of
        Inl e \<Rightarrow> Inl e
      | Inr m \<Rightarrow> (case majority_sum rest of Inl e \<Rightarrow> Inl e | Inr s \<Rightarrow> Inr (m + s)))"

text \<open>
  A Python float that is a number (not an infinity, not a NaN: the division of two ints
  returns neither): an IEEE 754 double, kept as its sign bit and the exact value of its
  magnitude. \<^verbatim>\<open>-0.0\<close> is \<open>PyFloat True 0\<close>.
\<close>

datatype py_float = PyFloat (negative: bool) (magnitude: rat)

text \<open>The nearest integer, and the even one of the two when \<open>x\<close> is half way between them.\<close>

definition round_half_even :: "rat \<Rightarrow> int" where
  "round_half_even x =
     (let lower = \<lfloor>x\<rfloor>; part = x - of_int lower in
      if part < 1 / 2 then lower
      else if 1 / 2 < part then lower + 1
      else if even lower then lower else lower + 1)"

text \<open>
  The binary exponent of \<open>n / d\<close> for positive \<open>n\<close> and \<open>d\<close>: the \<open>e\<close> with
  \<open>2^e \<le> n / d < 2^(e+1)\<close>. The difference \<open>k\<close> of the bit lengths is \<open>e\<close> or \<open>e + 1\<close>.
\<close>

definition binary_exponent :: "int \<Rightarrow> int \<Rightarrow> int" where
  "binary_exponent n d =
     (let k = bitlen n - bitlen d in
      if 2 powi k \<le> (of_int n / of_int d :: rat) then k else k - 1)"

text \<open>
  The double nearest to \<open>n / d\<close>, for \<open>n \<ge> 0\<close> and \<open>d > 0\<close>, as IEEE 754 rounds to
  nearest with ties to even. A double has a significand of 53 bits, so in the binade of
  exponent \<open>e\<close> the doubles are the multiples of \<open>2^(e-52)\<close>; below \<open>2^-1022\<close> they are the
  multiples of \<open>2^-1074\<close> (the subnormal numbers). The largest double is
  \<open>2^1024 - 2^971\<close>: a quotient that rounds to \<open>2^1024\<close> or more has no double, which is
  \<open>None\<close>.
\<close>

definition to_double :: "int \<Rightarrow> int \<Rightarrow> rat option" where
  "to_double n d =
     (if n = 0 then Some 0
      else
        let e = max (binary_exponent n d) (- 1022);
            ulp = 2 powi (e - 52);
            r = of_int (round_half_even (of_int n / of_int d / ulp)) * ulp
        in if 2 powi 1024 \<le> r then None else Some r)"

text \<open>
  \<^verbatim>\<open>a / b\<close> on two ints is true division. A zero divisor raises
  \<^verbatim>\<open>ZeroDivisionError\<close>. Otherwise CPython returns the correctly rounded quotient,
  the double nearest to \<open>a / b\<close>, with the sign of \<open>a / b\<close> (and \<^verbatim>\<open>0 / -5\<close> is
  \<^verbatim>\<open>-0.0\<close>: the sign bit is set when exactly one of the operands is negative), and
  raises \<^verbatim>\<open>OverflowError\<close> ("integer division result too large for a float") when
  there is none.
\<close>

definition py_truediv :: "int \<Rightarrow> int \<Rightarrow> py_error + py_float" where
  "py_truediv a b =
     (if b = 0 then Inl ZeroDivisionError
      else case to_double \<bar>a\<bar> \<bar>b\<bar> of
             None \<Rightarrow> Inl OverflowError
           | Some m \<Rightarrow> Inr (PyFloat ((a < 0) \<noteq> (b < 0)) m))"

text \<open>
  The cell: \<^verbatim>\<open>total_points\<close> is computed first and cannot fail, then
  \<^verbatim>\<open>majority_sum\<close>, then the division inside the \<^verbatim>\<open>print\<close>.
\<close>

definition purity :: "cluster list \<Rightarrow> py_error + py_float" where
  "purity clusters =
     (let tp = total_points clusters in
      case majority_sum clusters of
        Inl e \<Rightarrow> Inl e
      | Inr ms \<Rightarrow> py_truediv ms tp)"






section \<open>The Rand Index, in the two formulations of the specification\<close>

text \<open>
  The notebook does not compute the Rand Index itself: it imports
  \<^verbatim>\<open>rand_score\<close> from scikit-learn and prints
  \<^verbatim>\<open>rand_score(true_labels, predicted_labels)\<close>. The specification describes the
  index twice, by the sums of a contingency table and pair by pair. Both descriptions are
  written out here, word for word, over a sequence of true labels and a sequence of cluster
  identifiers; labels and identifiers are only compared for equality.
\<close>

text \<open>
  Modelled from the spec: the number \<open>C(n,2)\<close> of unordered pairs among \<open>n\<close> points, used by the
  Rand Index, which the notebook obtains from scikit-learn's \<^verbatim>\<open>rand_score\<close>; the
  library's code is not in the repository.
\<close>

definition choose2 :: "nat \<Rightarrow> nat" where
  "choose2 n = n * (n - 1) div 2"

text \<open>
  Modelled from the spec: the contingency table, the co-occurrence count \<open>n_ij\<close> of true label
  \<open>i\<close> and cluster \<open>j\<close>; scikit-learn builds it inside \<^verbatim>\<open>rand_score\<close>, whose code is
  not in the repository.
\<close>

definition contingency :: "'a list \<Rightarrow> 'b list \<Rightarrow> 'a \<Rightarrow> 'b \<Rightarrow> nat" where
  "contingency true_labels predicted_labels i j =
     count_list (zip true_labels predicted_labels) (i, j)"

text \<open>
  Modelled from the spec: the row sum \<open>a_i\<close> of the contingency table, over the clusters
  (inside scikit-learn's \<^verbatim>\<open>rand_score\<close>, not in the repository).
\<close>

definition row_sum :: "'a list \<Rightarrow> 'b list \<Rightarrow> 'a \<Rightarrow> nat" where
  "row_sum true_labels predicted_labels i =
     (\<Sum>j\<leftarrow>remdups predicted_labels. contingency true_labels predicted_labels i j)"

text \<open>
  Modelled from the spec: the column sum \<open>b_j\<close> of the contingency table, over the true labels
  (inside scikit-learn's \<^verbatim>\<open>rand_score\<close>, not in the repository).
\<close>

definition col_sum :: "'a list \<Rightarrow> 'b list \<Rightarrow> 'b \<Rightarrow> nat" where
  "col_sum true_labels predicted_labels j =
     (\<Sum>i\<leftarrow>remdups true_labels. contingency true_labels predicted_labels i j)"

text \<open>
  Modelled from the spec: \<open>sum(C(n_ij,2))\<close> over the cells of the table (inside scikit-learn's
  \<^verbatim>\<open>rand_score\<close>, not in the repository).
\<close>

definition pairs_together :: "'a list \<Rightarrow> 'b list \<Rightarrow> nat" where
  "pairs_together true_labels predicted_labels =
     (\<Sum>i\<leftarrow>remdups true_labels. \<Sum>j\<leftarrow>remdups predicted_labels.
        choose2 (contingency true_labels predicted_labels i j))"

text \<open>
  Modelled from the spec: \<open>sum(C(a_i,2))\<close> over the true labels (inside scikit-learn's
  \<^verbatim>\<open>rand_score\<close>, not in the repository).
\<close>

definition pairs_same_label :: "'a list \<Rightarrow> 'b list \<Rightarrow> nat" where
  "pairs_same_label true_labels predicted_labels =
     (\<Sum>i\<leftarrow>remdups true_labels. choose2 (row_sum true_labels predicted_labels i))"

text \<open>
  Modelled from the spec: \<open>sum(C(b_j,2))\<close> over the clusters (inside scikit-learn's
  \<^verbatim>\<open>rand_score\<close>, not in the repository).
\<close>

definition pairs_same_cluster :: "'a list \<Rightarrow> 'b list \<Rightarrow> nat" where
  "pairs_same_cluster true_labels predicted_labels =
     (\<Sum>j\<leftarrow>remdups predicted_labels. choose2 (col_sum true_labels predicted_labels j))"

text \<open>
  Modelled from the spec: the agreements by the contingency sums,
  \<open>sum(C(n_ij,2)) + [C(N,2) - sum(C(a_i,2)) - sum(C(b_j,2)) + sum(C(n_ij,2))]\<close>, an integer
  (inside scikit-learn's \<^verbatim>\<open>rand_score\<close>, not in the repository).
\<close>

definition agreements_contingency :: "'a list \<Rightarrow> 'b list \<Rightarrow> int" where
  "agreements_contingency true_labels predicted_labels =
     int (pairs_together true_labels predicted_labels)
     + (int (choose2 (length true_labels))
        - int (pairs_same_label true_labels predicted_labels)
        - int (pairs_same_cluster true_labels predicted_labels)
        + int (pairs_together true_labels predicted_labels))"

text \<open>
  Modelled from the spec: the Rand Index in its contingency-table formulation, the agreements
  divided by \<open>C(N,2)\<close>, in place of scikit-learn's \<^verbatim>\<open>rand_score\<close>, which the notebook
  imports and whose code is not in the repository. The spec gives the quotient no value
  when the sequences differ in length or when there is no pair of points: \<open>None\<close>.
\<close>

definition rand_index_contingency :: "'a list \<Rightarrow> 'b list \<Rightarrow> rat option" where
  "rand_index_contingency true_labels predicted_labels =
     (if length true_labels \<noteq> length predicted_labels \<or> choose2 (length true_labels) = 0
      then None
      else Some (of_int (agreements_contingency true_labels predicted_labels)
                 / of_nat (choose2 (length true_labels))))"

text \<open>
  Modelled from the spec: the \<open>C(N,2)\<close> unordered pairs of points, a point being a position of the
  two sequences; each pair is listed once, smaller position first (the pairwise definition of
  the Rand Index, which the notebook obtains from scikit-learn's \<^verbatim>\<open>rand_score\<close>, not in
  the repository).
\<close>

definition point_pairs :: "nat \<Rightarrow> (nat \<times> nat) list" where
  "point_pairs n = concat (map (\<lambda>i. map (\<lambda>j. (i, j)) [Suc i..<n]) [0..<n])"

text \<open>
  Modelled from the spec: a pair is in agreement if both points share a cluster and share a true
  label, or neither share a cluster nor share a true label (the pairwise definition of the
  Rand Index; scikit-learn's \<^verbatim>\<open>rand_score\<close> is not in the repository).
\<close>

definition in_agreement :: "'a list \<Rightarrow> 'b list \<Rightarrow> nat \<times> nat \<Rightarrow> bool" where
  "in_agreement true_labels predicted_labels p =
     (case p of (i, j) \<Rightarrow>
        (predicted_labels ! i = predicted_labels ! j \<and> true_labels ! i = true_labels ! j)
        \<or> (predicted_labels ! i \<noteq> predicted_labels ! j \<and> true_labels ! i \<noteq> true_labels ! j))"

text \<open>
  Modelled from the spec: the number of pairs in agreement, counted pair by pair (the pairwise
  definition of the Rand Index; scikit-learn's \<^verbatim>\<open>rand_score\<close> is not in the repository).
\<close>

definition agreements_pairwise :: "'a list \<Rightarrow> 'b list \<Rightarrow> nat" where
  "agreements_pairwise true_labels predicted_labels =
     length (filter (in_agreement true_labels predicted_labels)
               (point_pairs (length true_labels)))"

text \<open>
  Modelled from the spec: the Rand Index in its pairwise definition, agreements over total pairs,
  in place of scikit-learn's \<^verbatim>\<open>rand_score\<close>, whose code is not in the repository.
  \<open>None\<close> when the sequences differ in length or when there is no pair of points.
\<close>

definition rand_index_pairwise :: "'a list \<Rightarrow> 'b list \<Rightarrow> rat option" where
  "rand_index_pairwise true_labels predicted_labels =
     (if length true_labels \<noteq> length predicted_labels
         \<or> point_pairs (length true_labels) = []
      then None
      else Some (of_nat (agreements_pairwise true_labels predicted_labels)
                 / of_nat (length (point_pairs (length true_labels)))))"

text \<open>
  Two counting devices for the proofs. \<open>related_pairs P xs\<close> counts the pairs of
  positions of \<open>xs\<close>, smaller position first, whose elements are related by \<open>P\<close>;
  \<open>agree\<close> is agreement of two points given as (true label, cluster) pairs.
\<close>

fun related_pairs :: "('a \<Rightarrow> 'a \<Rightarrow> bool) \<Rightarrow> 'a list \<Rightarrow> nat" where
  "related_pairs P [] = 0"
| "related_pairs P (x # xs) = length (filter (P x) xs) + related_pairs P xs"

definition agree :: "'a \<times> 'b \<Rightarrow> 'a \<times> 'b \<Rightarrow> bool" where
  "agree x y = ((snd x = snd y \<and> fst x = fst y) \<or> (snd x \<noteq> snd y \<and> fst x \<noteq> fst y))"


section \<open>Properties of the float division\<close>















lemma py_truediv_zero [simp]: "py_truediv a 0 = Inl ZeroDivisionError"
  by (simp add: py_truediv_def)











section \<open>Properties of purity\<close>

lemma foldl_max_eq_Max:
  "foldl (\<lambda>best item. if item > best then item else best) v vs = Max (set (v # vs))"
proof (induction vs arbitrary: v)
  case Nil
  then show ?case by simp
next
  case (Cons w ws)
  have "Max (insert v (insert w (set ws))) = Max (insert (max v w) (set ws))"
    by (cases "set ws = {}") (simp_all add: max.assoc)
  moreover have "(if w > v then w else v) = max v w"
    by (auto simp: max_def)
  ultimately show ?case
    using Cons.IH [of "max v w"] by simp
qed

lemma py_max_eq_Max:
  "vs \<noteq> [] \<Longrightarrow> py_max vs = Inr (Max (set vs))"
  by (cases vs) (simp_all only: py_max.simps foldl_max_eq_Max list.simps, simp)

lemma majority_sum_eq:
  "[] \<notin> set clusters \<Longrightarrow>
   majority_sum clusters = Inr (\<Sum>c\<leftarrow>clusters. Max (set (dict_values c)))"
proof (induction clusters)
  case Nil
  then show ?case by simp
next
  case (Cons c cs)
  then have "dict_values c \<noteq> []" and "[] \<notin> set cs"
    by (auto simp: dict_values_def)
  then show ?case
    using Cons.IH by (simp add: py_max_eq_Max)
qed

lemma majority_sum_empty_cluster:
  "[] \<in> set clusters \<Longrightarrow> majority_sum clusters = Inl ValueError"
proof (induction clusters)
  case Nil
  then show ?case by simp
next
  case (Cons c cs)
  show ?case
  proof (cases "c = []")
    case True
    then show ?thesis by (simp add: dict_values_def)
  next
    case False
    then have "[] \<in> set cs" and "dict_values c \<noteq> []"
      using Cons.prems by (auto simp: dict_values_def)
    then show ?thesis
      using Cons.IH by (simp add: py_max_eq_Max)
  qed
qed








text \<open>
  C8 (as amended). The cell validates nothing and has no error of its own for an invalid
  input. When the counts sum to zero (there are no points) it fails: with
  \<^verbatim>\<open>ValueError\<close>, raised by \<^verbatim>\<open>max\<close>, when some cluster's dict is empty, and
  otherwise with \<^verbatim>\<open>ZeroDivisionError\<close>, raised by the division. It never returns a
  number there.
\<close>

theorem purity_no_points_fails:
  assumes "total_points clusters = 0"
  shows "purity clusters = Inl (if [] \<in> set clusters then ValueError else ZeroDivisionError)"
proof (cases "[] \<in> set clusters")
  case True
  then show ?thesis
    by (simp add: purity_def majority_sum_empty_cluster)
next
  case False
  then show ?thesis
    using assms by (simp add: purity_def majority_sum_eq py_truediv_def)
qed

theorem purity_no_points_fails_witness:
  "total_points [[(''A'', 0)], [(''A'', 0), (''B'', 0)]] = 0
   \<and> purity [[(''A'', 0)], [(''A'', 0), (''B'', 0)]] = Inl ZeroDivisionError"
proof -
  have h: "total_points [[(''A'', 0)], [(''A'', 0), (''B'', 0)]] = 0"
    by (simp add: total_points_def dict_values_def)
  show ?thesis
    using purity_no_points_fails [OF h] h by simp
qed

text \<open>
  No points at all (an empty list of clusters) and one cluster with an empty dict are both
  inputs with N = 0, and the cell fails on them with two different Python errors, neither
  raised by a check of the input.
\<close>

theorem purity_no_points_counterexample:
  "purity [] = Inl ZeroDivisionError \<and> purity [[]] = Inl ValueError"
  by (simp add: purity_def py_truediv_def total_points_def dict_values_def)


section \<open>The two formulations of the Rand Index agree\<close>

lemma point_pairs_Suc:
  "point_pairs (Suc n) =
     map (\<lambda>j. (0, Suc j)) [0..<n] @ map (\<lambda>(i, j). (Suc i, Suc j)) (point_pairs n)"
proof -
  have "[0..<Suc n] = 0 # map Suc [0..<n]"
    by (simp add: upt_conv_Cons map_Suc_upt del: upt_Suc)
  moreover have "map (\<lambda>j. (i, j)) [Suc i..<Suc n] = map (\<lambda>j. (i, Suc j)) [i..<n]" for i :: nat
    by (simp add: map_Suc_upt [symmetric] del: upt_Suc)
  ultimately show ?thesis
    unfolding point_pairs_def
    by (simp add: map_concat comp_def map_Suc_upt [symmetric] del: upt_Suc)
qed

lemma length_point_pairs: "length (point_pairs n) = choose2 n"
proof (induction n)
  case 0
  then show ?case by (simp add: point_pairs_def choose2_def)
next
  case (Suc n)
  have "n + n * (n - 1) div 2 = Suc n * n div 2"
    by (cases n) simp_all
  then show ?case
    using Suc by (simp add: point_pairs_Suc choose2_def)
qed

lemma filter_point_pairs:
  "length (filter (\<lambda>(i, j). P (xs ! i) (xs ! j)) (point_pairs (length xs))) = related_pairs P xs"
proof (induction xs)
  case Nil
  then show ?case by (simp add: point_pairs_def)
next
  case (Cons x xs)
  have "length (filter (\<lambda>j. P x (xs ! j)) [0..<length xs]) = length (filter (P x) xs)"
  proof -
    have "map (\<lambda>j. xs ! j) [0..<length xs] = xs"
      by (rule map_nth)
    then have "filter (P x) xs = filter (P x) (map (\<lambda>j. xs ! j) [0..<length xs])"
      by simp
    then show ?thesis
      by (simp add: filter_map comp_def del: map_nth)
  qed
  then show ?case
    using Cons.IH
    by (simp add: point_pairs_Suc filter_map comp_def case_prod_unfold)
qed


lemma choose2_Suc: "choose2 (Suc n) = choose2 n + n"
proof -
  have "Suc n * n div 2 = n * (n - 1) div 2 + n"
    by (cases n) simp_all
  then show ?thesis
    by (simp add: choose2_def)
qed

lemma choose2_0 [simp]: "choose2 0 = 0"
  by (simp add: choose2_def)

lemma length_filter_eq_count: "length (filter ((=) x) xs) = count_list xs x"
  by (induction xs) auto

lemma sum_choose2_count:
  "(\<Sum>v\<in>set ys. choose2 (count_list ys v)) = related_pairs (=) ys"
proof (induction ys)
  case Nil
  then show ?case by simp
next
  case (Cons y ys)
  let ?f = "\<lambda>v. choose2 (count_list ys v)"
  let ?g = "\<lambda>v. choose2 (count_list (y # ys) v)"
  have rest: "sum ?g (set ys - {y}) = sum ?f (set ys - {y})"
    by (rule sum.cong) auto
  have here: "?g y = ?f y + count_list ys y"
    by (simp add: choose2_Suc)
  have "sum ?g (set (y # ys)) = ?g y + sum ?g (set ys - {y})"
    by (simp add: sum.insert_remove)
  also have "\<dots> = count_list ys y + (?f y + sum ?f (set ys - {y}))"
    using rest here by simp
  also have "?f y + sum ?f (set ys - {y}) = sum ?f (set ys)"
  proof (cases "y \<in> set ys")
    case True
    then show ?thesis
      by (simp add: sum.remove [of "set ys" y ?f])
  next
    case False
    then have "count_list ys y = 0"
      by (simp add: count_list_0_iff)
    then show ?thesis
      using False by simp
  qed
  finally show ?case
    using Cons.IH by (simp add: length_filter_eq_count)
qed

lemma sum_list_remdups: "(\<Sum>v\<leftarrow>remdups ys. f v) = (\<Sum>v\<in>set ys. (f v :: nat))"
  using sum_list_distinct_conv_sum_set [of "remdups ys" f] by simp

lemma sum_count_second:
  assumes "finite J" and "snd ` set xs \<subseteq> J"
  shows "(\<Sum>j\<in>J. count_list xs (i, j)) = count_list (map fst xs) i"
  using assms(2)
proof (induction xs)
  case Nil
  then show ?case by simp
next
  case (Cons x xs)
  obtain t c where x: "x = (t, c)"
    by (cases x)
  have c: "c \<in> J"
    using Cons.prems x by auto
  have "(\<Sum>j\<in>J. count_list (x # xs) (i, j))
        = (\<Sum>j\<in>J. count_list xs (i, j) + (if t = i \<and> c = j then 1 else 0))"
    by (rule sum.cong) (auto simp: x)
  also have "\<dots> = (\<Sum>j\<in>J. count_list xs (i, j)) + (\<Sum>j\<in>J. if t = i \<and> c = j then 1 else 0)"
    by (simp add: sum.distrib)
  also have "(\<Sum>j\<in>J. if t = i \<and> c = j then 1 else 0) = (if t = i then 1 else (0::nat))"
    using assms(1) c by (cases "t = i") simp_all
  finally show ?case
    using Cons by (auto simp: x)
qed

lemma sum_count_first:
  assumes "finite I" and "fst ` set xs \<subseteq> I"
  shows "(\<Sum>i\<in>I. count_list xs (i, j)) = count_list (map snd xs) j"
  using assms(2)
proof (induction xs)
  case Nil
  then show ?case by simp
next
  case (Cons x xs)
  obtain t c where x: "x = (t, c)"
    by (cases x)
  have t: "t \<in> I"
    using Cons.prems x by auto
  have "(\<Sum>i\<in>I. count_list (x # xs) (i, j))
        = (\<Sum>i\<in>I. count_list xs (i, j) + (if c = j \<and> t = i then 1 else 0))"
    by (rule sum.cong) (auto simp: x)
  also have "\<dots> = (\<Sum>i\<in>I. count_list xs (i, j)) + (\<Sum>i\<in>I. if c = j \<and> t = i then 1 else 0)"
    by (simp add: sum.distrib)
  also have "(\<Sum>i\<in>I. if c = j \<and> t = i then 1 else 0) = (if c = j then 1 else (0::nat))"
    using assms(1) t by (cases "c = j") simp_all
  finally show ?case
    using Cons by (auto simp: x)
qed

lemma row_sum_count:
  assumes "length true_labels = length predicted_labels"
  shows "row_sum true_labels predicted_labels i = count_list true_labels i"
proof -
  have "snd ` set (zip true_labels predicted_labels) \<subseteq> set predicted_labels"
    by (auto dest: set_zip_rightD)
  then show ?thesis
    using sum_count_second [of "set predicted_labels" "zip true_labels predicted_labels" i] assms
    by (simp add: row_sum_def contingency_def sum_list_remdups)
qed

lemma col_sum_count:
  assumes "length true_labels = length predicted_labels"
  shows "col_sum true_labels predicted_labels j = count_list predicted_labels j"
proof -
  have "fst ` set (zip true_labels predicted_labels) \<subseteq> set true_labels"
    by (auto dest: set_zip_leftD)
  then show ?thesis
    using sum_count_first [of "set true_labels" "zip true_labels predicted_labels" j] assms
    by (simp add: col_sum_def contingency_def sum_list_remdups)
qed

lemma pairs_same_label_related:
  assumes "length true_labels = length predicted_labels"
  shows "pairs_same_label true_labels predicted_labels = related_pairs (=) true_labels"
  using assms
  by (simp add: pairs_same_label_def row_sum_count sum_list_remdups sum_choose2_count)

lemma pairs_same_cluster_related:
  assumes "length true_labels = length predicted_labels"
  shows "pairs_same_cluster true_labels predicted_labels = related_pairs (=) predicted_labels"
  using assms
  by (simp add: pairs_same_cluster_def col_sum_count sum_list_remdups sum_choose2_count)

lemma pairs_together_related:
  "pairs_together true_labels predicted_labels
     = related_pairs (=) (zip true_labels predicted_labels)"
proof -
  let ?xs = "zip true_labels predicted_labels"
  let ?h = "\<lambda>v. choose2 (count_list ?xs v)"
  have sub: "set ?xs \<subseteq> set true_labels \<times> set predicted_labels"
    by (auto dest: set_zip_leftD set_zip_rightD)
  have "pairs_together true_labels predicted_labels
        = (\<Sum>i\<in>set true_labels. \<Sum>j\<in>set predicted_labels. ?h (i, j))"
    by (simp add: pairs_together_def contingency_def sum_list_remdups)
  also have "\<dots> = sum ?h (set true_labels \<times> set predicted_labels)"
    by (simp add: sum.cartesian_product)
  also have "\<dots> = sum ?h (set ?xs)"
  proof (rule sum.mono_neutral_right)
    show "\<forall>v\<in>set true_labels \<times> set predicted_labels - set ?xs. ?h v = 0"
      by (simp add: count_list_0_iff)
  qed (use sub in simp_all)
  finally show ?thesis
    by (simp add: sum_choose2_count)
qed



lemma filter_agree:
  "int (length (filter (agree x) xs))
     = int (length xs)
       - int (count_list (map fst xs) (fst x))
       - int (count_list (map snd xs) (snd x))
       + 2 * int (count_list xs x)"
  by (induction xs) (auto simp: agree_def prod_eq_iff)

lemma count_list_map_filter: "count_list (map f xs) v = length (filter ((=) v \<circ> f) xs)"
  by (induction xs) auto

lemma related_pairs_agree:
  "int (related_pairs agree xs)
     = int (choose2 (length xs))
       - int (related_pairs (=) (map fst xs))
       - int (related_pairs (=) (map snd xs))
       + 2 * int (related_pairs (=) xs)"
proof (induction xs)
  case Nil
  then show ?case by simp
next
  case (Cons x xs)
  then show ?case
    by (simp add: filter_agree choose2_Suc length_filter_eq_count count_list_map_filter)
qed

lemma agreements_pairwise_related:
  assumes "length true_labels = length predicted_labels"
  shows "agreements_pairwise true_labels predicted_labels
           = related_pairs agree (zip true_labels predicted_labels)"
proof -
  let ?xs = "zip true_labels predicted_labels"
  let ?n = "length true_labels"
  have bound: "i < ?n \<and> j < ?n" if "(i, j) \<in> set (point_pairs ?n)" for i j
    using that by (auto simp: point_pairs_def)
  have "filter (in_agreement true_labels predicted_labels) (point_pairs ?n)
        = filter (\<lambda>(i, j). agree (?xs ! i) (?xs ! j)) (point_pairs ?n)"
  proof (rule filter_cong [OF refl])
    fix p
    assume p: "p \<in> set (point_pairs ?n)"
    obtain i j where ij: "p = (i, j)"
      by (cases p)
    show "in_agreement true_labels predicted_labels p
          = (case p of (i, j) \<Rightarrow> agree (?xs ! i) (?xs ! j))"
      using bound [of i j] p assms by (simp add: ij in_agreement_def agree_def)
  qed
  then show ?thesis
    using filter_point_pairs [of agree ?xs] assms
    by (simp add: agreements_pairwise_def)
qed

lemma agreements_contingency_eq_pairwise:
  assumes "length true_labels = length predicted_labels"
  shows "agreements_contingency true_labels predicted_labels
           = int (agreements_pairwise true_labels predicted_labels)"
  using assms related_pairs_agree [of "zip true_labels predicted_labels"]
  by (simp add: agreements_contingency_def agreements_pairwise_related
      pairs_together_related pairs_same_label_related pairs_same_cluster_related)

text \<open>
  C3. For two label sequences of equal length with at least two points, the Rand Index
  by the contingency sums (agreements
  \<open>sum(C(n_ij,2)) + [C(N,2) - sum(C(a_i,2)) - sum(C(b_j,2)) + sum(C(n_ij,2))]\<close> over
  \<open>C(N,2)\<close>) equals the Rand Index of the pairwise definition: the fraction of the
  \<open>C(N,2)\<close> unordered pairs of points that share both a cluster and a true label, or
  share neither; and both have a value.
\<close>

theorem rand_index_contingency_eq_pairwise:
  assumes "length true_labels = length predicted_labels" and "2 \<le> length true_labels"
  shows "rand_index_contingency true_labels predicted_labels
           = rand_index_pairwise true_labels predicted_labels
         \<and> rand_index_pairwise true_labels predicted_labels
           = Some (of_nat (agreements_pairwise true_labels predicted_labels)
                   / of_nat (choose2 (length true_labels)))"
proof -
  have "0 < choose2 (length true_labels)"
  proof -
    obtain m where "length true_labels = Suc (Suc m)"
      using assms(2) by (metis Suc_le_D numeral_2_eq_2 Suc_le_mono)
    then show ?thesis
      by (simp add: choose2_Suc)
  qed
  then have "point_pairs (length true_labels) \<noteq> []"
    using length_point_pairs [of "length true_labels"] by auto
  then show ?thesis
    using assms(1) \<open>0 < choose2 (length true_labels)\<close>
    by (simp add: rand_index_contingency_def rand_index_pairwise_def length_point_pairs
        agreements_contingency_eq_pairwise)
qed

theorem rand_index_contingency_eq_pairwise_witness:
  "length ''AABBC'' = length [0, 0, 1, 1, 1 :: nat] \<and> 2 \<le> length ''AABBC''
   \<and> rand_index_contingency ''AABBC'' [0, 0, 1, 1, 1 :: nat] = Some (4 / 5)
   \<and> rand_index_pairwise ''AABBC'' [0, 0, 1, 1, 1 :: nat] = Some (4 / 5)"
proof -
  have h1: "length ''AABBC'' = length [0, 0, 1, 1, 1 :: nat]"
    by simp
  have h2: "2 \<le> length ''AABBC''"
    by simp
  have "agreements_pairwise ''AABBC'' [0, 0, 1, 1, 1 :: nat] = 8"
    by code_simp
  moreover have "choose2 (length ''AABBC'') = 10"
    by (simp add: choose2_def)
  ultimately show ?thesis
    using rand_index_contingency_eq_pairwise [OF h1 h2] by simp
qed

end
